theory Spec2Isabelle
  imports Complex_Main "HOL-Library.Word"
begin

section \<open>Numbers, arrays and errors\<close>

text \<open>
  The functions of \<^verbatim>\<open>functions.py\<close> compute with numpy arrays of float64. The model
  computes with exact reals: an array of rank one is a list of reals, an array of rank
  two is the list of its rows. Every exception the Python raises is a value of
  \<open>error\<close>; \<open>LinAlgError\<close> is \<^verbatim>\<open>numpy.linalg.LinAlgError\<close>, the exception
  \<^verbatim>\<open>np.linalg.solve\<close> raises for a system that is singular or not square.
\<close>

type_synonym vec = "real list"
type_synonym mat = "real list list"

datatype error = TypeError | IndexError | ValueError | LinAlgError

text \<open>\<^verbatim>\<open>v * c\<close> and \<^verbatim>\<open>u - v\<close> on arrays of rank one.\<close>

definition smul :: "vec \<Rightarrow> real \<Rightarrow> vec" where
  "smul v c = map (\<lambda>x. x * c) v"

definition vsub :: "vec \<Rightarrow> vec \<Rightarrow> vec" where
  "vsub u v = map2 (-) u v"

definition dot :: "vec \<Rightarrow> vec \<Rightarrow> real" where
  "dot u v = sum_list (map2 (*) u v)"

section \<open>The linear solve\<close>

text \<open>
  \<^verbatim>\<open>np.linalg.solve(a, b)\<close> belongs to numpy, not to the repository. Its contract is
  modelled in exact arithmetic: the rows of \<open>a\<close> must have one length (numpy refuses a
  ragged list with \<^verbatim>\<open>ValueError\<close>), \<open>a\<close> must be square and must not be singular
  (\<^verbatim>\<open>LinAlgError\<close> both times), and then the result is the solution of \<open>a x = b\<close>,
  computed here by Cramer's rule over the determinant expanded along the first row.
\<close>

definition del_col :: "nat \<Rightarrow> 'a list \<Rightarrow> 'a list" where
  "del_col k r = take k r @ drop (Suc k) r"

function det :: "mat \<Rightarrow> real" where
  "det [] = 1"
| "det (r # rs) =
     (\<Sum>k\<leftarrow>[0..<length r]. (- 1) ^ k * r ! k * det (map (del_col k) rs))"
  by pat_completeness auto
termination
  by (relation "measure length") auto

definition replace_col :: "nat \<Rightarrow> vec \<Rightarrow> mat \<Rightarrow> mat" where
  "replace_col k b a = map2 (\<lambda>row v. row[k := v]) a b"

definition cramer :: "mat \<Rightarrow> vec \<Rightarrow> vec" where
  "cramer a b = map (\<lambda>k. det (replace_col k b a) / det a) [0..<length a]"

definition rectangular :: "'a list list \<Rightarrow> bool" where
  "rectangular a = (case a of [] \<Rightarrow> True | r # rs \<Rightarrow> list_all (\<lambda>q. length q = length r) rs)"

definition square :: "'a list list \<Rightarrow> bool" where
  "square a = list_all (\<lambda>q. length q = length a) a"

definition linalg_solve :: "mat \<Rightarrow> vec \<Rightarrow> error + vec" where
  "linalg_solve a b =
     (if \<not> rectangular a then Inl ValueError
      else if \<not> square a then Inl LinAlgError
      else if length b \<noteq> length a then Inl ValueError
      else if det a = 0 then Inl LinAlgError
      else Inr (cramer a b))"

section \<open>Back-projection: \<^verbatim>\<open>get_xyz_coords\<close>\<close>

text \<open>
  The loop \<^verbatim>\<open>for constraint in constraints\<close>: each constraint \<open>[A, B, C, D]\<close> adds the
  row \<^verbatim>\<open>constraint[0:-1]\<close> to \<open>a\<close> and the entry \<^verbatim>\<open>constraint[-1]\<close> to \<open>b\<close>; the
  latter raises \<^verbatim>\<open>IndexError\<close> on an empty constraint.
\<close>

fun append_constraints :: "vec list \<Rightarrow> mat \<times> vec \<Rightarrow> error + (mat \<times> vec)" where
  "append_constraints [] ab = Inr ab"
| "append_constraints (c # cs) (a, b) =
     (if c = [] then Inl IndexError
      else append_constraints cs (a @ [butlast c], b @ [last c]))"

text \<open>
  \<open>ppm\<close> is an array of rank two, so its rows have one length. \<^verbatim>\<open>ppm[2]\<close> raises
  \<^verbatim>\<open>IndexError\<close> when there are fewer than three rows, \<^verbatim>\<open>k3[-1]\<close> when the rows are
  empty. The default \<^verbatim>\<open>constraints=None\<close> is \<open>None\<close>; iterating over it raises
  \<^verbatim>\<open>TypeError\<close>.
\<close>

definition get_xyz_coords :: "real \<Rightarrow> real \<Rightarrow> mat \<Rightarrow> vec list option \<Rightarrow> error + vec" where
  "get_xyz_coords i j ppm constraints =
     (if length ppm < 3 then Inl IndexError
      else
        let k1 = smul (ppm ! 2) i;
            k2 = smul (ppm ! 2) j;
            k3 = vsub k1 (ppm ! 0);
            k4 = vsub k2 (ppm ! 1)
        in if k3 = [] \<or> k4 = [] then Inl IndexError
           else
             let a = [butlast k3, butlast k4];
                 b = [- last k3, - last k4]
             in case constraints of
                  None \<Rightarrow> Inl TypeError
                | Some cs \<Rightarrow>
                    (case append_constraints cs (a, b) of
                       Inl e \<Rightarrow> Inl e
                     | Inr (a', b') \<Rightarrow> linalg_solve a' b'))"

text \<open>A projection operator is a 3 by 4 matrix, a linear constraint has four coefficients.\<close>

definition is_ppm :: "mat \<Rightarrow> bool" where
  "is_ppm ppm = (length ppm = 3 \<and> list_all (\<lambda>r. length r = 4) ppm)"

definition is_constraint :: "vec \<Rightarrow> bool" where
  "is_constraint c = (length c = 4)"

text \<open>The system that \<^verbatim>\<open>get_xyz_coords\<close> stacks, written out for the reader of the theorems.\<close>

definition ray_rows :: "real \<Rightarrow> real \<Rightarrow> mat \<Rightarrow> mat" where
  "ray_rows i j ppm =
     [butlast (vsub (smul (ppm ! 2) i) (ppm ! 0)), butlast (vsub (smul (ppm ! 2) j) (ppm ! 1))]"

definition ray_rhs :: "real \<Rightarrow> real \<Rightarrow> mat \<Rightarrow> vec" where
  "ray_rhs i j ppm =
     [- last (vsub (smul (ppm ! 2) i) (ppm ! 0)), - last (vsub (smul (ppm ! 2) j) (ppm ! 1))]"

section \<open>The projection operator: \<^verbatim>\<open>calculatePpmMatrix\<close>\<close>


definition ncols :: "'a list list \<Rightarrow> nat" where
  "ncols a = (case a of [] \<Rightarrow> 0 | r # _ \<Rightarrow> length r)"






section \<open>The sample-validity predicate of the plane fit: \<^verbatim>\<open>validateData\<close>\<close>

text \<open>
  \<^verbatim>\<open>not(b[0] == b[1] and b[1] == b[2])\<close>, where \<open>b\<close> holds the z-values of the sample.
  \<^verbatim>\<open>and\<close> evaluates its right operand only when the left one is true.
\<close>

definition validateData :: "mat \<Rightarrow> vec \<Rightarrow> error + bool" where
  "validateData a b =
     (if length b < 2 then Inl IndexError
      else if b ! 0 = b ! 1 then
        (if length b < 3 then Inl IndexError else Inr (\<not> (b ! 1 = b ! 2)))
      else Inr True)"

section \<open>Robust regression: \<^verbatim>\<open>RANSACRegressor\<close>\<close>

text \<open>
  Both fitters call scikit-learn's \<^verbatim>\<open>RANSACRegressor(...).fit(X, y)\<close> and read the
  attributes \<^verbatim>\<open>estimator_\<close> (with \<^verbatim>\<open>coef_\<close> and \<^verbatim>\<open>intercept_\<close>) and
  \<^verbatim>\<open>inlier_mask_\<close> of the result. Isabelle names cannot end in an underscore, so the
  attributes are written with a prime.
\<close>

record estimator =
  coef' :: vec
  intercept' :: real

definition predict :: "estimator \<Rightarrow> vec \<Rightarrow> real" where
  "predict est x = dot (coef' est) x + intercept' est"

text \<open>
  The score of a candidate is the coefficient of determination that
  \<^verbatim>\<open>estimator.score\<close> returns: a float, not a number on fewer than two samples, and
  compared with the initial best score of minus infinity.
\<close>

datatype score = MinusInf | NaN | Score real

fun score_less :: "score \<Rightarrow> score \<Rightarrow> bool" where
  "score_less (Score a) (Score b) = (a < b)"
| "score_less MinusInf (Score b) = True"
| "score_less _ _ = False"

definition mean :: "vec \<Rightarrow> real" where
  "mean ys = sum_list ys / real (length ys)"

definition r2_score :: "vec \<Rightarrow> vec \<Rightarrow> score" where
  "r2_score y_true y_pred =
     (if length y_pred < 2 then NaN
      else
        let numerator = (\<Sum>(t, p)\<leftarrow>zip y_true y_pred. (t - p)\<^sup>2);
            denominator = (\<Sum>t\<leftarrow>y_true. (t - mean y_true)\<^sup>2)
        in if denominator \<noteq> 0 then Score (1 - numerator / denominator)
           else if numerator \<noteq> 0 then Score 0
           else Score 1)"

text \<open>
  \<^verbatim>\<open>np.median\<close>, and the median absolute deviation of \<open>y\<close> that is the residual
  threshold when none is given.
\<close>

definition median :: "vec \<Rightarrow> real" where
  "median ys =
     (let s = sort ys; n = length s
      in if even n then (s ! (n div 2 - 1) + s ! (n div 2)) / 2 else s ! (n div 2))"

definition mad :: "vec \<Rightarrow> real" where
  "mad y = median (map (\<lambda>t. \<bar>t - median y\<bar>) y)"

text \<open>Indexing with a boolean mask, \<^verbatim>\<open>xs[bs]\<close>; the masks here have the length of \<open>xs\<close>.\<close>

definition select :: "'a list \<Rightarrow> bool list \<Rightarrow> 'a list" where
  "select xs bs = map fst (filter snd (zip xs bs))"

text \<open>The keyword arguments of the constructor that the two callers set or leave at their defaults.\<close>

record ransac_config =
  base_estimator :: "mat \<Rightarrow> vec \<Rightarrow> error + estimator"
  is_data_valid :: "(mat \<Rightarrow> vec \<Rightarrow> error + bool) option"
  is_model_valid :: "(estimator \<Rightarrow> mat \<Rightarrow> vec \<Rightarrow> bool) option"
  residual_threshold :: "real option"
  max_trials :: nat

record ransac_state =
  n_inliers_best :: nat
  score_best :: score
  inlier_mask_best :: "bool list option"

record regressor =
  estimator' :: estimator
  inlier_mask' :: "bool list"

definition threshold_of :: "ransac_config \<Rightarrow> vec \<Rightarrow> real" where
  "threshold_of cfg y = (case residual_threshold cfg of None \<Rightarrow> mad y | Some t \<Rightarrow> t)"

definition inlier_mask_of :: "estimator \<Rightarrow> real \<Rightarrow> mat \<Rightarrow> vec \<Rightarrow> bool list" where
  "inlier_mask_of est thr X y = map2 (\<lambda>x t. \<bar>t - predict est x\<bar> \<le> thr) X y"

text \<open>
  One pass through the loop of \<^verbatim>\<open>fit\<close>, for the subset of sample indices drawn in
  this trial: the sample-validity check, the fit of the base estimator on the subset, the
  model-validity check on this candidate, the classification of all the data into inliers
  (absolute residual at most the threshold; older releases of scikit-learn ask for a
  residual below it, and no residual of the concrete runs below equals the threshold),
  and the comparison with the best candidate so far by number of inliers and then by
  score. The best number of inliers starts at 1 and the best score at minus infinity. A
  skipped trial leaves the state as it was.
\<close>

definition trial ::
  "ransac_config \<Rightarrow> real \<Rightarrow> mat \<Rightarrow> vec \<Rightarrow> nat list \<Rightarrow> ransac_state \<Rightarrow> error + ransac_state" where
  "trial cfg thr X y subset_idxs st =
     (if \<not> list_all (\<lambda>k. k < length X) subset_idxs then Inl IndexError
      else
        let X_subset = map ((!) X) subset_idxs;
            y_subset = map ((!) y) subset_idxs
        in case (case is_data_valid cfg of None \<Rightarrow> Inr True | Some f \<Rightarrow> f X_subset y_subset) of
             Inl e \<Rightarrow> Inl e
           | Inr False \<Rightarrow> Inr st
           | Inr True \<Rightarrow>
               (case base_estimator cfg X_subset y_subset of
                  Inl e \<Rightarrow> Inl e
                | Inr est \<Rightarrow>
                    if (case is_model_valid cfg of None \<Rightarrow> False
                        | Some f \<Rightarrow> \<not> f est X_subset y_subset)
                    then Inr st
                    else
                      let inlier_mask_subset = inlier_mask_of est thr X y;
                          n_inliers_subset = length (filter id inlier_mask_subset)
                      in if n_inliers_subset < n_inliers_best st then Inr st
                         else
                           let X_inlier_subset = select X inlier_mask_subset;
                               y_inlier_subset = select y inlier_mask_subset;
                               score_subset = r2_score y_inlier_subset
                                                (map (predict est) X_inlier_subset)
                           in if n_inliers_subset = n_inliers_best st \<and>
                                 score_less score_subset (score_best st)
                              then Inr st
                              else Inr \<lparr>n_inliers_best = n_inliers_subset,
                                        score_best = score_subset,
                                        inlier_mask_best = Some inlier_mask_subset\<rparr>))"

fun trials ::
  "ransac_config \<Rightarrow> real \<Rightarrow> mat \<Rightarrow> vec \<Rightarrow> nat list list \<Rightarrow> ransac_state \<Rightarrow> error + ransac_state" where
  "trials cfg thr X y [] st = Inr st"
| "trials cfg thr X y (d # ds) st =
     (case trial cfg thr X y d st of
        Inl e \<Rightarrow> Inl e
      | Inr st' \<Rightarrow> trials cfg thr X y ds st')"

text \<open>
  \<^verbatim>\<open>fit\<close>. The random generator of numpy is not part of the model: \<open>draws\<close> is the
  sequence of index subsets that the trials draw, in order. The loop performs at most
  \<^verbatim>\<open>max_trials\<close> trials (it lowers this bound after each new best candidate, which only
  decides how long \<open>draws\<close> is). \<^verbatim>\<open>min_samples\<close> is the number of features plus one;
  fewer samples than that are refused with \<^verbatim>\<open>ValueError\<close>. When no trial produced a
  candidate the fit raises \<^verbatim>\<open>ValueError\<close>; otherwise the base estimator is fitted
  once more, on all inliers of the best candidate, and this last fit is what
  \<^verbatim>\<open>estimator_\<close> holds. The model-validity check is not applied to it.
\<close>

definition RANSACRegressor_fit ::
  "ransac_config \<Rightarrow> nat list list \<Rightarrow> mat \<Rightarrow> vec \<Rightarrow> error + regressor" where
  "RANSACRegressor_fit cfg draws X y =
     (if X = [] \<or> length X \<noteq> length y then Inl ValueError
      else if length X < ncols X + 1 then Inl ValueError
      else
        let thr = threshold_of cfg y
        in case trials cfg thr X y (take (max_trials cfg) draws)
                  \<lparr>n_inliers_best = 1, score_best = MinusInf, inlier_mask_best = None\<rparr> of
             Inl e \<Rightarrow> Inl e
           | Inr st \<Rightarrow>
               (case inlier_mask_best st of
                  None \<Rightarrow> Inl ValueError
                | Some best \<Rightarrow>
                    (case base_estimator cfg (select X best) (select y best) of
                       Inl e \<Rightarrow> Inl e
                     | Inr est \<Rightarrow> Inr \<lparr>estimator' = est, inlier_mask' = best\<rparr>)))"

section \<open>The plane fit: \<^verbatim>\<open>calculatePlaneCoefs\<close>\<close>

text \<open>
  \<^verbatim>\<open>LinearRegression(fit_intercept=True)\<close> belongs to scikit-learn; its \<^verbatim>\<open>fit\<close> is the
  parameter \<open>LinearRegression\<close>. The result is the list
  \<^verbatim>\<open>np.append(coef_, [-1, -intercept_])\<close>.
\<close>

definition calculatePlaneCoefs ::
  "(mat \<Rightarrow> vec \<Rightarrow> error + estimator) \<Rightarrow> nat list list \<Rightarrow> mat \<Rightarrow> error + vec" where
  "calculatePlaneCoefs LinearRegression draws points =
     (if \<not> list_all (\<lambda>p. 3 \<le> length p) points then Inl IndexError
      else
        let xy = map (take 2) points;
            z = map (\<lambda>p. p ! 2) points
        in case RANSACRegressor_fit
                  \<lparr>base_estimator = LinearRegression,
                   is_data_valid = Some validateData,
                   is_model_valid = None,
                   residual_threshold = Some (1 / 100),
                   max_trials = 1000\<rparr> draws xy z of
             Inl e \<Rightarrow> Inl e
           | Inr reg \<Rightarrow>
               Inr (coef' (estimator' reg) @ [- 1, - intercept' (estimator' reg)]))"

section \<open>The line fit: \<^verbatim>\<open>validateDataLine\<close> and \<^verbatim>\<open>calculateLineCoefs\<close>\<close>

text \<open>
  \<^verbatim>\<open>validateDataLine(intercept)\<close> returns the predicate on a fitted model; what it
  prints is left out. \<^verbatim>\<open>calculateLineCoefs\<close> fits the second column of the points
  against the first, with the default threshold and number of trials.
\<close>

definition validateDataLine :: "real \<Rightarrow> estimator \<Rightarrow> mat \<Rightarrow> vec \<Rightarrow> bool" where
  "validateDataLine intercept model a b = (\<bar>intercept - intercept' model\<bar> > 25)"

definition calculateLineCoefs ::
  "(mat \<Rightarrow> vec \<Rightarrow> error + estimator) \<Rightarrow> nat list list \<Rightarrow> (real \<times> real) list \<Rightarrow>
     (estimator \<Rightarrow> mat \<Rightarrow> vec \<Rightarrow> bool) option \<Rightarrow> error + (vec \<times> real \<times> bool list)" where
  "calculateLineCoefs LinearRegression draws points is_model_valid' =
     (let x = map (\<lambda>p. [fst p]) points;
          y = map snd points
      in case RANSACRegressor_fit
                \<lparr>base_estimator = LinearRegression,
                 is_data_valid = None,
                 is_model_valid = is_model_valid',
                 residual_threshold = None,
                 max_trials = 100\<rparr> draws x y of
           Inl e \<Rightarrow> Inl e
         | Inr reg \<Rightarrow>
             Inr (coef' (estimator' reg), intercept' (estimator' reg), inlier_mask' reg))"

section \<open>Splitting a mask: \<^verbatim>\<open>splitTopBottomPoints\<close>\<close>

text \<open>
  A mask is an image of one channel of unsigned bytes, the list of its rows.
  \<^verbatim>\<open>cv2.findNonZero\<close> lists the non-zero pixels row by row, each as (column, row); it
  returns \<^verbatim>\<open>None\<close> when there is none, and then \<^verbatim>\<open>np.reshape\<close> raises
  \<^verbatim>\<open>ValueError\<close>.
\<close>

type_synonym image = "8 word list list"

definition row_points :: "nat \<Rightarrow> 8 word list \<Rightarrow> (nat \<times> nat) list" where
  "row_points r row = map (\<lambda>(c, v). (c, r)) (filter (\<lambda>(c, v). v \<noteq> 0) (enumerate 0 row))"

definition findNonZero :: "image \<Rightarrow> (nat \<times> nat) list" where
  "findNonZero src = concat (map (\<lambda>(r, row). row_points r row) (enumerate 0 src))"

definition zeros_like :: "image \<Rightarrow> image" where
  "zeros_like src = map (map (\<lambda>v. 0)) src"

text \<open>The loops \<^verbatim>\<open>for pt in ...: first_set[pt[0, 1], pt[0, 0]] = 255\<close>.\<close>

fun rasterize :: "image \<Rightarrow> (nat \<times> nat) list \<Rightarrow> error + image" where
  "rasterize m [] = Inr m"
| "rasterize m ((x, y) # pts) =
     (if y < length m \<and> x < length (m ! y) then rasterize (m[y := (m ! y)[x := 255]]) pts
      else Inl IndexError)"

definition reshape2 :: "(nat \<times> nat) list \<Rightarrow> (real \<times> real) list" where
  "reshape2 points = map (\<lambda>(x, y). (real x, real y)) points"

definition splitTopBottomPoints ::
  "(mat \<Rightarrow> vec \<Rightarrow> error + estimator) \<Rightarrow> nat list list \<Rightarrow> nat list list \<Rightarrow> image \<Rightarrow>
     error + (image \<times> image)" where
  "splitTopBottomPoints LinearRegression draws1 draws2 src =
     (let points = findNonZero src
      in if points = [] then Inl ValueError
         else
           case calculateLineCoefs LinearRegression draws1 (reshape2 points) None of
             Inl e \<Rightarrow> Inl e
           | Inr (_, intercept_first, inliers) \<Rightarrow>
               (case rasterize (zeros_like src) (select points inliers) of
                  Inl e \<Rightarrow> Inl e
                | Inr first_set \<Rightarrow>
                    let points_top = select points (map Not inliers)
                    in case calculateLineCoefs LinearRegression draws2 (reshape2 points_top)
                              (Some (validateDataLine intercept_first)) of
                         Inl e \<Rightarrow> Inl e
                       | Inr (_, intercept_second, inliers2) \<Rightarrow>
                           (case rasterize (zeros_like src) (select points_top inliers2) of
                              Inl e \<Rightarrow> Inl e
                            | Inr second_set \<Rightarrow>
                                if intercept_first < intercept_second
                                then Inr (second_set, first_set)
                                else Inr (first_set, second_set))))"

text \<open>The pixel in row \<open>r\<close> and column \<open>c\<close> of a mask is set.\<close>

definition nonzero_at :: "image \<Rightarrow> nat \<Rightarrow> nat \<Rightarrow> bool" where
  "nonzero_at m r c = (r < length m \<and> c < length (m ! r) \<and> m ! r ! c \<noteq> 0)"

section \<open>Least squares for one and two features\<close>

text \<open>
  What \<^verbatim>\<open>LinearRegression(fit_intercept=True).fit\<close> computes in exact arithmetic for the
  two numbers of features this program uses: the data are centred, the coefficients are
  the least-squares solution of smallest norm, and the intercept makes the fit pass
  through the means. It instantiates the parameter \<open>LinearRegression\<close> on the concrete
  inputs below.
\<close>

definition lstsq1 :: "vec \<Rightarrow> vec \<Rightarrow> vec" where
  "lstsq1 u t =
     (let Suu = (\<Sum>a\<leftarrow>u. a * a); Sut = dot u t
      in if Suu = 0 then [0] else [Sut / Suu])"

definition lstsq2 :: "vec \<Rightarrow> vec \<Rightarrow> vec \<Rightarrow> vec" where
  "lstsq2 u v t =
     (let Suu = dot u u; Suv = dot u v; Svv = dot v v; Sut = dot u t; Svt = dot v t;
          D = Suu * Svv - Suv * Suv; T = Suu + Svv
      in if D \<noteq> 0 then [(Svv * Sut - Suv * Svt) / D, (Suu * Svt - Suv * Sut) / D]
         else if T = 0 then [0, 0]
         else [(Suu * Sut + Suv * Svt) / (T * T), (Suv * Sut + Svv * Svt) / (T * T)])"

definition centered :: "vec \<Rightarrow> vec" where
  "centered u = map (\<lambda>a. a - mean u) u"

definition LinearRegression_fit :: "mat \<Rightarrow> vec \<Rightarrow> error + estimator" where
  "LinearRegression_fit X y =
     (if X = [] \<or> length X \<noteq> length y then Inl ValueError
      else if ncols X = 1 then
        let u = map (\<lambda>r. r ! 0) X; w = lstsq1 (centered u) (centered y)
        in Inr \<lparr>coef' = w, intercept' = mean y - dot [mean u] w\<rparr>
      else if ncols X = 2 then
        let u = map (\<lambda>r. r ! 0) X; v = map (\<lambda>r. r ! 1) X;
            w = lstsq2 (centered u) (centered v) (centered y)
        in Inr \<lparr>coef' = w, intercept' = mean y - dot [mean u, mean v] w\<rparr>
      else Inl ValueError)"

section \<open>Concrete inputs\<close>

text \<open>
  A camera at the origin looking down the z axis with unit intrinsics, and a camera with
  focal length 2 and principal point (1, 1), not rotated, five units from the origin.
\<close>

definition P_example :: mat where
  "P_example = [[1, 0, 0, 0], [0, 1, 0, 0], [0, 0, 1, 0]]"



text \<open>
  A mask of 29 rows and 2 columns with two short diagonal segments, 27 rows apart. Its
  first fit draws the two points of the upper segment in each of its trials, 17 of them:
  the bound on the number of trials that scikit-learn computes from a best candidate
  with 2 inliers among 4 points. Its second fit has one trial, since both remaining
  points are inliers of the first candidate. Then four points of which the inner two lie
  on the line \<open>y = x + 26\<close>, and four points of the plane \<open>z = 2 x + 3 y + 5\<close>.
\<close>

definition src_example :: image where
  "src_example = [[255, 0], [0, 255]] @ replicate 25 [0, 0] @ [[255, 0], [0, 255]]"


definition line_points_example :: "(real \<times> real) list" where
  "line_points_example = [(0, 20), (10, 36), (20, 46), (30, 50)]"

definition draws1_example :: "nat list list" where
  "draws1_example = replicate 17 [0, 1]"

definition upper_example :: image where
  "upper_example = [[255, 0], [0, 255]] @ replicate 27 [0, 0]"

definition lower_example :: image where
  "lower_example = replicate 27 [0, 0] @ [[255, 0], [0, 255]]"

definition plane_points_example :: mat where
  "plane_points_example = [[0, 0, 5], [1, 0, 7], [0, 1, 8], [1, 1, 10]]"

section \<open>Facts about the solve\<close>






section \<open>Facts about the back-projection\<close>

lemma list3E:
  assumes "length xs = 3"
  obtains x0 x1 x2 where "xs = [x0, x1, x2]"
  using assms by (auto simp: numeral_3_eq_3 length_Suc_conv)

lemma list4E:
  assumes "length xs = 4"
  obtains x0 x1 x2 x3 where "xs = [x0, x1, x2, x3]"
proof -
  from assms have "length xs = Suc (Suc (Suc (Suc 0)))" by simp
  then show ?thesis using that by (auto simp: length_Suc_conv)
qed

lemma is_ppmE:
  assumes "is_ppm ppm"
  obtains p00 p01 p02 p03 p10 p11 p12 p13 p20 p21 p22 p23 where
    "ppm = [[p00, p01, p02, p03], [p10, p11, p12, p13], [p20, p21, p22, p23]]"
proof -
  from assms obtain r0 r1 r2 where ppm: "ppm = [r0, r1, r2]"
    by (auto simp: is_ppm_def elim: list3E)
  with assms have "length r0 = 4" "length r1 = 4" "length r2 = 4"
    by (simp_all add: is_ppm_def)
  then show ?thesis using that ppm by (elim list4E) blast
qed

lemma append_constraints_ok:
  "list_all (\<lambda>c. c \<noteq> []) cs \<Longrightarrow>
     append_constraints cs (a, b) = Inr (a @ map butlast cs, b @ map last cs)"
  by (induction cs arbitrary: a b) auto

lemma ray_rows_explicit:
  "ray_rows i j [[p00, p01, p02, p03], [p10, p11, p12, p13], [p20, p21, p22, p23]] =
     [[p20 * i - p00, p21 * i - p01, p22 * i - p02],
      [p20 * j - p10, p21 * j - p11, p22 * j - p12]]"
  by (simp add: ray_rows_def smul_def vsub_def)


lemma get_xyz_coords_stack:
  assumes "is_ppm ppm" "list_all (\<lambda>c. c \<noteq> []) cs"
  shows "get_xyz_coords i j ppm (Some cs) =
     linalg_solve (ray_rows i j ppm @ map butlast cs) (ray_rhs i j ppm @ map last cs)"
proof -
  from assms(1) obtain p00 p01 p02 p03 p10 p11 p12 p13 p20 p21 p22 p23 where
    "ppm = [[p00, p01, p02, p03], [p10, p11, p12, p13], [p20, p21, p22, p23]]"
    by (rule is_ppmE)
  then show ?thesis
    using assms(2)
    by (simp add: get_xyz_coords_def smul_def vsub_def ray_rows_def ray_rhs_def
        append_constraints_ok Let_def)
qed

lemma get_xyz_coords_None:
  assumes "is_ppm ppm"
  shows "get_xyz_coords i j ppm None = Inl TypeError"
proof -
  from assms obtain p00 p01 p02 p03 p10 p11 p12 p13 p20 p21 p22 p23 where
    "ppm = [[p00, p01, p02, p03], [p10, p11, p12, p13], [p20, p21, p22, p23]]"
    by (rule is_ppmE)
  then show ?thesis
    by (simp add: get_xyz_coords_def smul_def vsub_def Let_def)
qed

lemma not_square:
  assumes "is_ppm ppm" "list_all is_constraint cs" "length cs \<noteq> 1"
  shows "get_xyz_coords i j ppm (Some cs) = Inl LinAlgError"
proof -
  from assms(1) obtain p00 p01 p02 p03 p10 p11 p12 p13 p20 p21 p22 p23 where
    ppm: "ppm = [[p00, p01, p02, p03], [p10, p11, p12, p13], [p20, p21, p22, p23]]"
    by (rule is_ppmE)
  have ne: "list_all (\<lambda>c. c \<noteq> []) cs"
    using assms(2) by (auto simp: list_all_iff is_constraint_def)
  have len: "list_all (\<lambda>q. length q = 3) (map butlast cs)"
    using assms(2) by (auto simp: list_all_iff is_constraint_def)
  have rect: "rectangular (ray_rows i j ppm @ map butlast cs)"
    using len by (simp add: ppm ray_rows_explicit rectangular_def numeral_3_eq_3)
  have nsq: "\<not> square (ray_rows i j ppm @ map butlast cs)"
    using assms(3) by (simp add: ppm ray_rows_explicit square_def)
  show ?thesis
    by (simp add: get_xyz_coords_stack[OF assms(1) ne] linalg_solve_def rect nsq)
qed


section \<open>Facts about boolean masks\<close>

lemma select_Nil [simp]: "select [] bs = []" "select xs [] = []"
  by (simp_all add: select_def)

lemma select_Cons [simp]:
  "select (x # xs) (b # bs) = (if b then x # select xs bs else select xs bs)"
  by (simp add: select_def)

lemma select_map: "select (map f xs) bs = map f (select xs bs)"
proof (induction xs arbitrary: bs)
  case Nil
  show ?case by simp
next
  case (Cons a xs)
  then show ?case by (cases bs) simp_all
qed

lemma length_select:
  "length bs = length xs \<Longrightarrow> length (select xs bs) = length (filter id bs)"
proof (induction xs arbitrary: bs)
  case Nil
  then show ?case by simp
next
  case (Cons a xs)
  then show ?case by (cases bs) simp_all
qed

lemma set_select: "set (select xs bs) \<subseteq> set xs"
  by (auto simp: select_def dest: set_zip_leftD)

lemma select_disjoint:
  assumes "distinct xs"
  shows "set (select xs bs) \<inter> set (select xs (map Not bs)) = {}"
  using assms
proof (induction xs arbitrary: bs)
  case Nil
  show ?case by simp
next
  case (Cons a xs)
  show ?case
  proof (cases bs)
    case Nil
    then show ?thesis by simp
  next
    case (Cons b bs')
    from Cons.prems have a: "a \<notin> set xs" and d: "distinct xs"
      by simp_all
    from a set_select[of xs bs'] set_select[of xs "map Not bs'"]
    have "a \<notin> set (select xs bs')" "a \<notin> set (select xs (map Not bs'))"
      by auto
    with Cons.IH[OF d, of bs'] Cons show ?thesis
      by auto
  qed
qed

lemma map2_map_same:
  "map2 h (map f xs) (map g xs) = map (\<lambda>x. h (f x) (g x)) xs"
  by (induction xs) simp_all

section \<open>Facts about the robust fit\<close>

lemma trial_result:
  assumes "trial cfg thr X y d st = Inr st'"
  shows "st' = st \<or>
     (\<exists>est. list_all (\<lambda>k. k < length X) d \<and>
        base_estimator cfg (map ((!) X) d) (map ((!) y) d) = Inr est \<and>
        (\<forall>f. is_model_valid cfg = Some f \<longrightarrow> f est (map ((!) X) d) (map ((!) y) d)) \<and>
        inlier_mask_best st' = Some (inlier_mask_of est thr X y))"
  using assms
  by (auto simp: trial_def Let_def split: if_splits sum.splits option.splits bool.splits)

lemma trials_result:
  assumes "trials cfg thr X y ds st = Inr st'" and "inlier_mask_best st' = Some m"
  shows "inlier_mask_best st = Some m \<or>
     (\<exists>d est. d \<in> set ds \<and> list_all (\<lambda>k. k < length X) d \<and>
        base_estimator cfg (map ((!) X) d) (map ((!) y) d) = Inr est \<and>
        (\<forall>f. is_model_valid cfg = Some f \<longrightarrow> f est (map ((!) X) d) (map ((!) y) d)) \<and>
        m = inlier_mask_of est thr X y)"
  using assms
proof (induction ds arbitrary: st)
  case Nil
  then show ?case by simp
next
  case (Cons d ds)
  from Cons.prems(1) obtain st1 where t: "trial cfg thr X y d st = Inr st1"
    and r: "trials cfg thr X y ds st1 = Inr st'"
    by (auto split: sum.splits)
  from Cons.IH[OF r Cons.prems(2)] show ?case
  proof
    assume m: "inlier_mask_best st1 = Some m"
    from trial_result[OF t] show ?case
    proof
      assume "st1 = st"
      with m show ?case by simp
    next
      assume "\<exists>est. list_all (\<lambda>k. k < length X) d \<and>
        base_estimator cfg (map ((!) X) d) (map ((!) y) d) = Inr est \<and>
        (\<forall>f. is_model_valid cfg = Some f \<longrightarrow> f est (map ((!) X) d) (map ((!) y) d)) \<and>
        inlier_mask_best st1 = Some (inlier_mask_of est thr X y)"
      with m show ?case by auto
    qed
  next
    assume "\<exists>d est. d \<in> set ds \<and> list_all (\<lambda>k. k < length X) d \<and>
        base_estimator cfg (map ((!) X) d) (map ((!) y) d) = Inr est \<and>
        (\<forall>f. is_model_valid cfg = Some f \<longrightarrow> f est (map ((!) X) d) (map ((!) y) d)) \<and>
        m = inlier_mask_of est thr X y"
    then show ?case by auto
  qed
qed

lemma inlier_mask_of_length:
  "length X = length y \<Longrightarrow> length (inlier_mask_of est thr X y) = length X"
  by (simp add: inlier_mask_of_def)

lemma RANSACRegressor_fit_result:
  assumes "RANSACRegressor_fit cfg draws X y = Inr reg"
  shows "X \<noteq> [] \<and> length X = length y \<and>
     base_estimator cfg (select X (inlier_mask' reg)) (select y (inlier_mask' reg)) =
       Inr (estimator' reg) \<and>
     (\<exists>d est. d \<in> set draws \<and> list_all (\<lambda>k. k < length X) d \<and>
        base_estimator cfg (map ((!) X) d) (map ((!) y) d) = Inr est \<and>
        (\<forall>f. is_model_valid cfg = Some f \<longrightarrow> f est (map ((!) X) d) (map ((!) y) d)) \<and>
        inlier_mask' reg = inlier_mask_of est (threshold_of cfg y) X y)"
proof -
  let ?init = "\<lparr>n_inliers_best = 1, score_best = MinusInf, inlier_mask_best = None\<rparr>"
  from assms have X: "X \<noteq> []" "length X = length y"
    by (auto simp: RANSACRegressor_fit_def split: if_splits)
  from assms obtain st m where
    tr: "trials cfg (threshold_of cfg y) X y (take (max_trials cfg) draws) ?init = Inr st"
    and m: "inlier_mask_best st = Some m"
    and f: "base_estimator cfg (select X m) (select y m) = Inr (estimator' reg)"
    and r: "inlier_mask' reg = m"
    by (auto simp: RANSACRegressor_fit_def Let_def
        split: if_splits sum.splits option.splits)
  from trials_result[OF tr m] obtain d est where
    d: "d \<in> set (take (max_trials cfg) draws)" "list_all (\<lambda>k. k < length X) d"
      "base_estimator cfg (map ((!) X) d) (map ((!) y) d) = Inr est"
      "\<forall>f. is_model_valid cfg = Some f \<longrightarrow> f est (map ((!) X) d) (map ((!) y) d)"
      "m = inlier_mask_of est (threshold_of cfg y) X y"
    by auto
  from d(1) have "d \<in> set draws" by (rule in_set_takeD)
  with X f r d show ?thesis by auto
qed

lemma trial_count:
  assumes "trial cfg thr X y d st = Inr st'"
    and "1 \<le> n_inliers_best st"
    and "\<forall>m. inlier_mask_best st = Some m \<longrightarrow> length (filter id m) = n_inliers_best st"
  shows "1 \<le> n_inliers_best st' \<and>
     (\<forall>m. inlier_mask_best st' = Some m \<longrightarrow> length (filter id m) = n_inliers_best st')"
  using assms
  by (auto simp: trial_def Let_def split: if_splits sum.splits option.splits bool.splits)

lemma trials_count:
  assumes "trials cfg thr X y ds st = Inr st'"
    and "1 \<le> n_inliers_best st"
    and "\<forall>m. inlier_mask_best st = Some m \<longrightarrow> length (filter id m) = n_inliers_best st"
  shows "1 \<le> n_inliers_best st' \<and>
     (\<forall>m. inlier_mask_best st' = Some m \<longrightarrow> length (filter id m) = n_inliers_best st')"
  using assms
proof (induction ds arbitrary: st)
  case Nil
  then show ?case by simp
next
  case (Cons d ds)
  from Cons.prems(1) obtain st1 where t: "trial cfg thr X y d st = Inr st1"
    and r: "trials cfg thr X y ds st1 = Inr st'"
    by (auto split: sum.splits)
  from trial_count[OF t Cons.prems(2,3)] Cons.IH[OF r] show ?case by blast
qed

lemma RANSACRegressor_fit_nonempty:
  assumes "RANSACRegressor_fit cfg draws X y = Inr reg"
  shows "select X (inlier_mask' reg) \<noteq> []"
proof -
  let ?init = "\<lparr>n_inliers_best = 1, score_best = MinusInf, inlier_mask_best = None\<rparr>"
  from assms obtain st where
    tr: "trials cfg (threshold_of cfg y) X y (take (max_trials cfg) draws) ?init = Inr st"
    and m: "inlier_mask_best st = Some (inlier_mask' reg)"
    by (auto simp: RANSACRegressor_fit_def Let_def split: if_splits sum.splits option.splits)
  from trials_count[OF tr] m have "1 \<le> length (filter id (inlier_mask' reg))"
    by auto
  moreover from RANSACRegressor_fit_result[OF assms]
  have "length (inlier_mask' reg) = length X"
    by (auto simp: inlier_mask_of_length)
  ultimately show ?thesis
    using length_select[of "inlier_mask' reg" X] by auto
qed

text \<open>The inlier mask has one entry per point, so the boolean indexing never fails.\<close>

lemma calculateLineCoefs_mask_length:
  assumes "calculateLineCoefs LinearRegression draws points v = Inr (k, c, inl)"
  shows "length inl = length points"
proof -
  from assms obtain reg where
    "RANSACRegressor_fit
       \<lparr>base_estimator = LinearRegression, is_data_valid = None, is_model_valid = v,
          residual_threshold = None, max_trials = 100\<rparr>
       draws (map (\<lambda>p. [fst p]) points) (map snd points) = Inr reg"
    and "inl = inlier_mask' reg"
    by (auto simp: calculateLineCoefs_def Let_def split: sum.splits)
  with RANSACRegressor_fit_result[OF this(1)] show ?thesis
    by (auto simp: inlier_mask_of_length)
qed

section \<open>Facts about masks\<close>

lemma nonzero_at_zeros_like: "\<not> nonzero_at (zeros_like src) r c"
  by (auto simp: nonzero_at_def zeros_like_def)

lemma nonzero_at_update:
  assumes "y < length m" and "x < length (m ! y)"
  shows "nonzero_at (m[y := (m ! y)[x := 255]]) r c \<longleftrightarrow> nonzero_at m r c \<or> (c, r) = (x, y)"
  using assms by (auto simp: nonzero_at_def nth_list_update split: if_splits)

lemma rasterize_nonzero:
  assumes "rasterize m pts = Inr m'"
  shows "nonzero_at m' r c \<longleftrightarrow> nonzero_at m r c \<or> (c, r) \<in> set pts"
  using assms
proof (induction m pts rule: rasterize.induct)
  case (1 m)
  then show ?case by simp
next
  case (2 m x y pts)
  from "2.prems" have ok: "y < length m" "x < length (m ! y)"
    and rest: "rasterize (m[y := (m ! y)[x := 255]]) pts = Inr m'"
    by (auto split: if_splits)
  from "2.IH"[OF _ rest] ok nonzero_at_update[OF ok] show ?case
    by auto
qed

lemma rasterize_zeros:
  assumes "rasterize (zeros_like src) pts = Inr m"
  shows "nonzero_at m r c \<longleftrightarrow> (c, r) \<in> set pts"
  using rasterize_nonzero[OF assms] by (simp add: nonzero_at_zeros_like)

lemma row_points_snd: "p \<in> set (row_points r row) \<Longrightarrow> snd p = r"
  by (auto simp: row_points_def)

lemma row_points_distinct: "distinct (row_points r row)"
proof -
  have "distinct (map fst (filter (\<lambda>(c, v). v \<noteq> 0) (enumerate 0 row)))"
    by (rule distinct_map_filter) simp
  moreover have "map fst (row_points r row) =
      map fst (filter (\<lambda>(c, v). v \<noteq> 0) (enumerate 0 row))"
    by (simp add: row_points_def comp_def case_prod_beta)
  ultimately have "distinct (map fst (row_points r row))"
    by simp
  then show ?thesis by (rule distinct_map[THEN iffD1, THEN conjunct1])
qed

lemma rows_points_distinct:
  "distinct (concat (map (\<lambda>(r, row). row_points r row) (enumerate n src)))"
proof (induction src arbitrary: n)
  case Nil
  show ?case by simp
next
  case (Cons row src)
  have later: "n < snd p"
    if "p \<in> set (concat (map (\<lambda>(r, row). row_points r row) (enumerate (Suc n) src)))" for p
    using that by (auto simp: in_set_enumerate_eq dest!: row_points_snd)
  have "set (row_points n row) \<inter>
      set (concat (map (\<lambda>(r, row). row_points r row) (enumerate (Suc n) src))) = {}"
    using later row_points_snd[of _ n row] by fastforce
  with Cons.IH[of "Suc n"] row_points_distinct[of n row] show ?case
    by simp
qed

lemma findNonZero_distinct: "distinct (findNonZero src)"
  using rows_points_distinct[of 0 src] by (simp add: findNonZero_def)

lemma splitTopBottomPoints_Inr:
  assumes "splitTopBottomPoints LinearRegression draws1 draws2 src = Inr (bottom_mask, top_mask)"
  obtains k1 c1 in1 set1 k2 c2 in2 set2 where
    "calculateLineCoefs LinearRegression draws1 (reshape2 (findNonZero src)) None =
       Inr (k1, c1, in1)"
    "rasterize (zeros_like src) (select (findNonZero src) in1) = Inr set1"
    "calculateLineCoefs LinearRegression draws2
       (reshape2 (select (findNonZero src) (map Not in1))) (Some (validateDataLine c1)) =
       Inr (k2, c2, in2)"
    "rasterize (zeros_like src) (select (select (findNonZero src) (map Not in1)) in2) = Inr set2"
    "if c1 < c2 then top_mask = set1 \<and> bottom_mask = set2 else top_mask = set2 \<and> bottom_mask = set1"
  using assms
  by (auto simp: splitTopBottomPoints_def Let_def split: if_splits sum.splits prod.splits)

section \<open>The concrete runs\<close>

lemma LinearRegression_fit_per_feature:
  "\<forall>X y est. LinearRegression_fit X y = Inr est \<longrightarrow> length (coef' est) = ncols X"
  by (auto simp: LinearRegression_fit_def lstsq1_def lstsq2_def Let_def split: if_splits)

lemma plane_example_run:
  "calculatePlaneCoefs LinearRegression_fit [[0, 1, 2]] plane_points_example =
     Inr [2, 3, - 1, - 5]"
  by code_simp

lemma line_example_run:
  "calculateLineCoefs LinearRegression_fit [[1, 2]] line_points_example
     (Some (validateDataLine 0)) = Inr ([1], 23, [True, True, True, True])"
  by code_simp

lemma split_example_first:
  "calculateLineCoefs LinearRegression_fit draws1_example
     (reshape2 (findNonZero src_example)) None = Inr ([1], 0, [True, True, False, False])"
  by code_simp

lemma split_example_second:
  "calculateLineCoefs LinearRegression_fit [[0, 1]]
     (reshape2 (select (findNonZero src_example) (map Not [True, True, False, False])))
     (Some (validateDataLine 0)) = Inr ([1], 27, [True, True])"
  by code_simp

lemma split_example_masks:
  "rasterize (zeros_like src_example)
     (select (findNonZero src_example) [True, True, False, False]) = Inr upper_example"
  "rasterize (zeros_like src_example)
     (select (select (findNonZero src_example) (map Not [True, True, False, False]))
        [True, True]) = Inr lower_example"
  "lower_example \<noteq> upper_example"
  by code_simp+

lemma split_example_run:
  "splitTopBottomPoints LinearRegression_fit draws1_example [[0, 1]] src_example =
     Inr (lower_example, upper_example)"
  by code_simp

section \<open>The claims\<close>

text \<open>
  Claim C1, as amended. The claim says that the mask of the fit with the smaller
  intercept is returned as bottom. The code returns it as top: when both fits succeed
  with intercepts \<open>c1\<close> and \<open>c2\<close>, and \<open>set1\<close> and \<open>set2\<close> are the masks whose set
  pixels are the inliers of the first and of the second fit, the pair (bottom, top) is
  \<open>(set2, set1)\<close> if \<open>c1 < c2\<close> and \<open>(set1, set2)\<close> otherwise. So the mask of the
  smaller intercept is top and that of the larger is bottom, decided by the comparison of
  the two intercepts alone; on equal intercepts the first mask is bottom.
\<close>

theorem splitMask_smaller_intercept_is_top:
  assumes "splitTopBottomPoints LinearRegression draws1 draws2 src = Inr (bottom_mask, top_mask)"
  shows "\<exists>k1 c1 in1 k2 c2 in2 set1 set2.
     calculateLineCoefs LinearRegression draws1 (reshape2 (findNonZero src)) None =
       Inr (k1, c1, in1) \<and>
     calculateLineCoefs LinearRegression draws2
       (reshape2 (select (findNonZero src) (map Not in1))) (Some (validateDataLine c1)) =
       Inr (k2, c2, in2) \<and>
     rasterize (zeros_like src) (select (findNonZero src) in1) = Inr set1 \<and>
     rasterize (zeros_like src) (select (select (findNonZero src) (map Not in1)) in2) = Inr set2 \<and>
     (\<forall>r c. nonzero_at set1 r c \<longleftrightarrow> (c, r) \<in> set (select (findNonZero src) in1)) \<and>
     (\<forall>r c. nonzero_at set2 r c \<longleftrightarrow>
        (c, r) \<in> set (select (select (findNonZero src) (map Not in1)) in2)) \<and>
     (if c1 < c2 then top_mask = set1 \<and> bottom_mask = set2
      else top_mask = set2 \<and> bottom_mask = set1)"
proof -
  from assms obtain k1 c1 in1 set1 k2 c2 in2 set2 where
    f1: "calculateLineCoefs LinearRegression draws1 (reshape2 (findNonZero src)) None =
       Inr (k1, c1, in1)"
    and r1: "rasterize (zeros_like src) (select (findNonZero src) in1) = Inr set1"
    and f2: "calculateLineCoefs LinearRegression draws2
       (reshape2 (select (findNonZero src) (map Not in1))) (Some (validateDataLine c1)) =
       Inr (k2, c2, in2)"
    and r2: "rasterize (zeros_like src) (select (select (findNonZero src) (map Not in1)) in2) =
      Inr set2"
    and ord: "if c1 < c2 then top_mask = set1 \<and> bottom_mask = set2
      else top_mask = set2 \<and> bottom_mask = set1"
    by (rule splitTopBottomPoints_Inr)
  have p1: "\<forall>r c. nonzero_at set1 r c \<longleftrightarrow> (c, r) \<in> set (select (findNonZero src) in1)"
    by (simp add: rasterize_zeros[OF r1])
  have p2: "\<forall>r c. nonzero_at set2 r c \<longleftrightarrow>
      (c, r) \<in> set (select (select (findNonZero src) (map Not in1)) in2)"
    by (simp add: rasterize_zeros[OF r2])
  from f1 f2 r1 r2 p1 p2 ord show ?thesis
    by blast
qed

theorem splitMask_smaller_intercept_is_top_witness:
  "splitTopBottomPoints LinearRegression_fit draws1_example [[0, 1]] src_example =
     Inr (lower_example, upper_example) \<and>
   (\<exists>k1 c1 in1 k2 c2 in2 set1 set2.
     calculateLineCoefs LinearRegression_fit draws1_example
       (reshape2 (findNonZero src_example)) None = Inr (k1, c1, in1) \<and>
     calculateLineCoefs LinearRegression_fit [[0, 1]]
       (reshape2 (select (findNonZero src_example) (map Not in1)))
       (Some (validateDataLine c1)) = Inr (k2, c2, in2) \<and>
     rasterize (zeros_like src_example) (select (findNonZero src_example) in1) = Inr set1 \<and>
     rasterize (zeros_like src_example)
       (select (select (findNonZero src_example) (map Not in1)) in2) = Inr set2 \<and>
     (if c1 < c2 then upper_example = set1 \<and> lower_example = set2
      else upper_example = set2 \<and> lower_example = set1))"
  using splitMask_smaller_intercept_is_top[OF split_example_run] split_example_run
  by blast

text \<open>
  On the example mask the first fit has intercept 0 and the second 27. The mask of the
  first fit, the one with the smaller intercept, is the second component of the result,
  that is top; bottom is the other mask.
\<close>

theorem splitMask_smaller_intercept_bottom_counterexample:
  "calculateLineCoefs LinearRegression_fit draws1_example
     (reshape2 (findNonZero src_example)) None = Inr ([1], 0, [True, True, False, False]) \<and>
   calculateLineCoefs LinearRegression_fit [[0, 1]]
     (reshape2 (select (findNonZero src_example) (map Not [True, True, False, False])))
     (Some (validateDataLine 0)) = Inr ([1], 27, [True, True]) \<and>
   (0 :: real) < 27 \<and>
   rasterize (zeros_like src_example)
     (select (findNonZero src_example) [True, True, False, False]) = Inr upper_example \<and>
   rasterize (zeros_like src_example)
     (select (select (findNonZero src_example) (map Not [True, True, False, False]))
        [True, True]) = Inr lower_example \<and>
   splitTopBottomPoints LinearRegression_fit draws1_example [[0, 1]] src_example =
     Inr (lower_example, upper_example) \<and>
   lower_example \<noteq> upper_example"
  using split_example_first split_example_second split_example_masks split_example_run
  by simp

text \<open>
  Claim C2, as amended. The claim says that a sample is rejected as soon as two of its
  three z-values are identical. The predicate of the code rejects less: on a sample of
  three points it returns false exactly when all three z-values are identical, and
  accepts every other sample, also one in which two of the three coincide.
\<close>

theorem validateData_rejects_only_all_equal:
  "validateData a [z0, z1, z2] = Inr (\<not> (z0 = z1 \<and> z1 = z2))"
  by (simp add: validateData_def)

text \<open>The sample with z-values 1, 1, 2 has two identical z-values and is accepted.\<close>

theorem validateData_two_equal_counterexample:
  "[1, 1, 2 :: real] ! 0 = [1, 1, 2] ! 1 \<and>
   validateData [[0, 0], [1, 0], [0, 1]] [1, 1, 2] = Inr True"
  by (simp add: validateData_def)





text \<open>
  Claim C5, as amended. The claim says that the returned intercept differs from \<open>c1\<close>
  by more than 25. The predicate is applied to the candidates only: when the line fit
  with the predicate of reference \<open>c1\<close> returns, one of the drawn subsets gave a
  candidate whose intercept differs from \<open>c1\<close> by more than 25 and whose inliers, at the
  median absolute deviation of the ordinates, are the returned inlier mask. The returned
  coefficients are those of the last fit, over these inliers, and the predicate is not
  applied to them.
\<close>

theorem fitLine_candidate_intercept:
  assumes "calculateLineCoefs LinearRegression draws points (Some (validateDataLine c1)) =
             Inr (k, c, inl)"
  shows "\<exists>d est. d \<in> set draws \<and> list_all (\<lambda>i. i < length points) d \<and>
     LinearRegression (map (\<lambda>i. [fst (points ! i)]) d) (map (\<lambda>i. snd (points ! i)) d) = Inr est \<and>
     \<bar>c1 - intercept' est\<bar> > 25 \<and>
     inl = map (\<lambda>p. \<bar>snd p - predict est [fst p]\<bar> \<le> mad (map snd points)) points \<and>
     LinearRegression (map (\<lambda>p. [fst p]) (select points inl)) (map snd (select points inl)) =
       Inr \<lparr>coef' = k, intercept' = c\<rparr>"
proof -
  let ?cfg = "\<lparr>base_estimator = LinearRegression, is_data_valid = None,
     is_model_valid = Some (validateDataLine c1), residual_threshold = None, max_trials = 100\<rparr>"
  let ?X = "map (\<lambda>p. [fst p]) points" and ?y = "map snd points"
  from assms obtain reg where reg: "RANSACRegressor_fit ?cfg draws ?X ?y = Inr reg"
    and out: "k = coef' (estimator' reg)" "c = intercept' (estimator' reg)" "inl = inlier_mask' reg"
    by (auto simp: calculateLineCoefs_def Let_def split: sum.splits)
  from RANSACRegressor_fit_result[OF reg] obtain d est where
    refit: "LinearRegression (select ?X inl) (select ?y inl) = Inr (estimator' reg)"
    and d: "d \<in> set draws" "list_all (\<lambda>k. k < length ?X) d"
      "LinearRegression (map ((!) ?X) d) (map ((!) ?y) d) = Inr est"
      "validateDataLine c1 est (map ((!) ?X) d) (map ((!) ?y) d)"
      "inl = inlier_mask_of est (threshold_of ?cfg ?y) ?X ?y"
    by (auto simp: out)
  have r: "list_all (\<lambda>i. i < length points) d"
    using d(2) by simp
  then have s: "map ((!) ?X) d = map (\<lambda>i. [fst (points ! i)]) d"
      "map ((!) ?y) d = map (\<lambda>i. snd (points ! i)) d"
    by (auto simp: list_all_iff)
  have sel: "select ?X inl = map (\<lambda>p. [fst p]) (select points inl)"
      "select ?y inl = map snd (select points inl)"
    by (simp_all add: select_map)
  have m: "inlier_mask_of est (threshold_of ?cfg ?y) ?X ?y =
      map (\<lambda>p. \<bar>snd p - predict est [fst p]\<bar> \<le> mad (map snd points)) points"
    by (simp add: inlier_mask_of_def threshold_of_def map2_map_same)
  have e: "estimator' reg = \<lparr>coef' = k, intercept' = c\<rparr>"
    by (simp add: out)
  from d(1) r d(3,4) d(5) refit show ?thesis
    unfolding s sel m e by (auto simp: validateDataLine_def)
qed

theorem fitLine_candidate_intercept_witness:
  "calculateLineCoefs LinearRegression_fit [[1, 2]] line_points_example
     (Some (validateDataLine 0)) = Inr ([1], 23, [True, True, True, True]) \<and>
   (\<exists>d est. d \<in> set [[1, 2]] \<and>
      LinearRegression_fit (map (\<lambda>i. [fst (line_points_example ! i)]) d)
        (map (\<lambda>i. snd (line_points_example ! i)) d) = Inr est \<and>
      \<bar>0 - intercept' est\<bar> > 25)"
  using fitLine_candidate_intercept[OF line_example_run] line_example_run
  by blast

text \<open>
  On four points with the reference intercept 0, the candidate through the second and
  third point is \<open>y = x + 26\<close> and passes the predicate; all four points are its
  inliers, and the fit over them, which is returned, has intercept 23.
\<close>

theorem fitLine_intercept_within_threshold_counterexample:
  "calculateLineCoefs LinearRegression_fit [[1, 2]] line_points_example
     (Some (validateDataLine 0)) = Inr ([1], 23, [True, True, True, True]) \<and>
   \<not> \<bar>0 - 23\<bar> > (25 :: real)"
  using line_example_run by simp



text \<open>
  Claim C7: when both line fits succeed, no pixel is set in both returned masks.
\<close>

theorem splitMask_disjoint:
  assumes "splitTopBottomPoints LinearRegression draws1 draws2 src = Inr (bottom_mask, top_mask)"
  shows "\<not> (nonzero_at bottom_mask r c \<and> nonzero_at top_mask r c)"
proof
  assume both: "nonzero_at bottom_mask r c \<and> nonzero_at top_mask r c"
  from assms obtain k1 c1 in1 set1 k2 c2 in2 set2 where
    "calculateLineCoefs LinearRegression draws1 (reshape2 (findNonZero src)) None =
       Inr (k1, c1, in1)"
    and r1: "rasterize (zeros_like src) (select (findNonZero src) in1) = Inr set1"
    and "calculateLineCoefs LinearRegression draws2
       (reshape2 (select (findNonZero src) (map Not in1))) (Some (validateDataLine c1)) =
       Inr (k2, c2, in2)"
    and r2: "rasterize (zeros_like src) (select (select (findNonZero src) (map Not in1)) in2) =
      Inr set2"
    and ord: "if c1 < c2 then top_mask = set1 \<and> bottom_mask = set2 else top_mask = set2 \<and> bottom_mask = set1"
    by (rule splitTopBottomPoints_Inr)
  from both ord have "nonzero_at set1 r c" "nonzero_at set2 r c"
    by (auto split: if_splits)
  then have "(c, r) \<in> set (select (findNonZero src) in1)"
    and "(c, r) \<in> set (select (select (findNonZero src) (map Not in1)) in2)"
    by (simp_all add: rasterize_zeros[OF r1] rasterize_zeros[OF r2])
  with set_select[of "select (findNonZero src) (map Not in1)" in2]
  have "(c, r) \<in> set (select (findNonZero src) in1) \<inter>
      set (select (findNonZero src) (map Not in1))"
    by auto
  with select_disjoint[OF findNonZero_distinct, of src in1] show False
    by simp
qed

theorem splitMask_disjoint_witness:
  "splitTopBottomPoints LinearRegression_fit draws1_example [[0, 1]] src_example =
     Inr (lower_example, upper_example) \<and>
   \<not> (nonzero_at lower_example 0 0 \<and> nonzero_at upper_example 0 0)"
  using splitMask_disjoint[OF split_example_run, of 0 0] split_example_run
  by simp

text \<open>
  Claim C8: when the plane fit succeeds, with a base estimator that returns one
  coefficient per feature, its output is the list \<open>[A, B, -1, -D]\<close> of the coefficients
  \<open>A\<close>, \<open>B\<close> and the intercept \<open>D\<close> of the final fit. It has the four entries of a linear
  constraint, and read as one, the way \<open>get_xyz_coords\<close> reads it (all entries but the
  last against the point, the last as right-hand side), it holds of \<open>(x, y, z)\<close> exactly
  when \<open>z = A x + B y + D\<close>.
\<close>

theorem fitPlane_constraint:
  assumes run: "calculatePlaneCoefs LinearRegression draws points = Inr plane"
    and per_feature: "\<forall>X y est. LinearRegression X y = Inr est \<longrightarrow>
                        length (coef' est) = ncols X"
  shows "\<exists>A B D. plane = [A, B, - 1, - D] \<and> is_constraint plane \<and>
     (\<exists>inl. LinearRegression (select (map (take 2) points) inl) (select (map (\<lambda>p. p ! 2) points) inl) =
         Inr \<lparr>coef' = [A, B], intercept' = D\<rparr>) \<and>
     (\<forall>x y z. dot (butlast plane) [x, y, z] = last plane \<longleftrightarrow> z = A * x + B * y + D)"
proof -
  let ?cfg = "\<lparr>base_estimator = LinearRegression, is_data_valid = Some validateData,
     is_model_valid = None, residual_threshold = Some (1 / 100), max_trials = 1000\<rparr>"
  let ?X = "map (take 2) points" and ?z = "map (\<lambda>p. p ! 2) points"
  from run have len: "list_all (\<lambda>p. 3 \<le> length p) points"
    by (auto simp: calculatePlaneCoefs_def split: if_splits)
  from run obtain reg where reg: "RANSACRegressor_fit ?cfg draws ?X ?z = Inr reg"
    and out: "plane = coef' (estimator' reg) @ [- 1, - intercept' (estimator' reg)]"
    by (auto simp: calculatePlaneCoefs_def Let_def split: if_splits sum.splits)
  let ?inl = "inlier_mask' reg"
  from RANSACRegressor_fit_result[OF reg]
  have refit: "LinearRegression (select ?X ?inl) (select ?z ?inl) = Inr (estimator' reg)"
    by simp
  from RANSACRegressor_fit_nonempty[OF reg] obtain r rs where rs: "select ?X ?inl = r # rs"
    by (cases "select ?X ?inl") auto
  then have r: "r \<in> set (select ?X ?inl)"
    by simp
  with set_select[of ?X ?inl] obtain p where "p \<in> set points" "r = take 2 p"
    by auto
  with len have "length r = 2"
    by (auto simp: list_all_iff)
  moreover from per_feature refit have "length (coef' (estimator' reg)) = length r"
    by (auto simp: ncols_def rs)
  ultimately have "length (coef' (estimator' reg)) = 2"
    by simp
  then obtain A B where AB: "coef' (estimator' reg) = [A, B]"
    by (auto simp: numeral_2_eq_2 length_Suc_conv)
  define D where "D = intercept' (estimator' reg)"
  have e: "estimator' reg = \<lparr>coef' = [A, B], intercept' = D\<rparr>"
    by (simp add: AB D_def)
  have p: "plane = [A, B, - 1, - D]"
    by (simp add: out AB D_def)
  have "dot (butlast plane) [x, y, z] = last plane \<longleftrightarrow> z = A * x + B * y + D" for x y z
    by (auto simp: p dot_def)
  with p refit e show ?thesis
    by (auto simp: is_constraint_def)
qed

theorem fitPlane_constraint_witness:
  "calculatePlaneCoefs LinearRegression_fit [[0, 1, 2]] plane_points_example =
     Inr [2, 3, - 1, - 5] \<and>
   is_constraint [2, 3, - 1, - 5] \<and>
   (\<exists>inl. LinearRegression_fit (select (map (take 2) plane_points_example) inl)
      (select (map (\<lambda>p. p ! 2) plane_points_example) inl) =
      Inr \<lparr>coef' = [2, 3], intercept' = 5\<rparr>) \<and>
   dot (butlast [2, 3, - 1, - 5]) [1, 1, 10] = last [2, 3, - 1, - 5]"
  using fitPlane_constraint[OF plane_example_run LinearRegression_fit_per_feature]
    plane_example_run
  by (auto simp: dot_def)

text \<open>
  Claim C10: called with the default \<^verbatim>\<open>constraints=None\<close>, \<open>get_xyz_coords\<close> fails
  with \<open>TypeError\<close>, raised by the iteration over \<open>None\<close>, for every pixel and every
  projection operator. This is not the failure of the linear solve on zero constraints,
  which is \<open>LinAlgError\<close> and is reached only by passing the empty list.
\<close>

theorem backProject_default_TypeError:
  assumes "is_ppm ppm"
  shows "get_xyz_coords i j ppm None = Inl TypeError \<and>
         get_xyz_coords i j ppm (Some []) = Inl LinAlgError"
proof
  show "get_xyz_coords i j ppm None = Inl TypeError"
    by (rule get_xyz_coords_None[OF assms])
  show "get_xyz_coords i j ppm (Some []) = Inl LinAlgError"
    by (rule not_square[OF assms]) simp_all
qed

theorem backProject_default_TypeError_witness:
  "is_ppm P_example \<and> get_xyz_coords 2 3 P_example None = Inl TypeError \<and>
   get_xyz_coords 2 3 P_example (Some []) = Inl LinAlgError"
proof -
  have h: "is_ppm P_example"
    by (simp add: is_ppm_def P_example_def)
  from backProject_default_TypeError[OF h] h show ?thesis by simp
qed

end
